theory Spec2Isabelle
  imports Main
begin

section \<open>The Pipeline Doctor (lambda/doctor/index.js)\<close>

text \<open>
  A shallow embedding of the handler of \<^verbatim>\<open>lambda/doctor/index.js\<close>. JavaScript strings are
  modelled as \<^typ>\<open>string\<close> (the bytes of their UTF-8 encoding), a value that may be
  \<^verbatim>\<open>undefined\<close> as an option, and the actions and statuses are the string tags of the
  source (\<^verbatim>\<open>'RETRY'\<close>, \<^verbatim>\<open>'GAVE_UP'\<close>, ...).
\<close>

subsection \<open>String primitives of the runtime\<close>

text \<open>\<^verbatim>\<open>s.includes(n)\<close>: does \<open>n\<close> occur in \<open>s\<close> as a contiguous substring.\<close>

fun includes_str :: "string \<Rightarrow> string \<Rightarrow> bool" where
  "includes_str [] n = (n = [])"
| "includes_str (c # cs) n = (take (length n) (c # cs) = n \<or> includes_str cs n)"

text \<open>
  \<^verbatim>\<open>s.toLowerCase()\<close> on the ASCII letters. Outside ASCII the runtime also lowers letters,
  but into non-ASCII characters, except for U+0130 and U+212A which give \<open>i\<close> and \<open>k\<close>;
  neither letter occurs in the needle the handler searches the lowered text for.
\<close>

definition lower_char :: "char \<Rightarrow> char" where
  "lower_char c =
     (let n = (of_char c :: nat) in if 65 \<le> n \<and> n \<le> 90 then char_of (n + 32) else c)"

definition toLowerCase :: "string \<Rightarrow> string" where
  "toLowerCase s = map lower_char s"

text \<open>\<^verbatim>\<open>x || ''\<close> for a string that may be \<^verbatim>\<open>undefined\<close>.\<close>

definition or_empty :: "string option \<Rightarrow> string" where
  "or_empty x = (case x of None \<Rightarrow> [] | Some s \<Rightarrow> s)"

text \<open>A value inside a template literal: \<^verbatim>\<open>`${x}`\<close>.\<close>

definition tmpl :: "string option \<Rightarrow> string" where
  "tmpl x = (case x of None \<Rightarrow> ''undefined'' | Some s \<Rightarrow> s)"

subsection \<open>Classification of a build failure (index.js, lines 49 to 52)\<close>

definition classify :: "string option \<Rightarrow> string" where
  "classify raw =
     (let action = ''RETRY'';
          action = (if includes_str (or_empty raw) ''TIMED_OUT''
                    then ''BUMP_TIMEOUT_AND_RETRY'' else action);
          action = (if includes_str (toLowerCase (or_empty raw)) ''rate exceeded''
                    then ''BACKOFF_AND_RETRY'' else action)
      in action)"

subsection \<open>Numbers of the runtime\<close>

text \<open>
  The numbers the handler computes with are retry counts: integer-valued doubles, or
  \<^verbatim>\<open>NaN\<close> when \<^verbatim>\<open>parseInt\<close> finds no digits. A double holds every integer of magnitude
  up to \<open>2^53\<close>; a sum beyond that is rounded to 53 significant bits. \<^verbatim>\<open>String\<close> and
  \<^verbatim>\<open>parseInt\<close> are modelled on the plain decimal digits: that is what the runtime prints
  below \<open>10^21\<close> and what it reads up to \<open>2^53\<close>, and the exponent notation and the
  rounding of longer digit strings are outside the model. Results of magnitude \<open>2^1024\<close>
  and more are outside it as well.
\<close>

datatype jsnum = Num int | NaN

text \<open>\<^verbatim>\<open>a >= b\<close>: false as soon as one side is \<^verbatim>\<open>NaN\<close>.\<close>

fun js_ge :: "jsnum \<Rightarrow> jsnum \<Rightarrow> bool" where
  "js_ge (Num a) (Num b) = (b \<le> a)"
| "js_ge _ _ = False"

text \<open>The number of binary digits of a positive integer.\<close>

function bitlen :: "int \<Rightarrow> nat" where
  "bitlen n = (if n \<le> 0 then 0 else Suc (bitlen (n div 2)))"
  by pat_completeness auto
termination
  by (relation "measure nat") auto

declare bitlen.simps [simp del]

text \<open>
  The integer a double holds for an exact integer result: the result itself up to
  magnitude \<open>2^53\<close>, beyond that the nearest multiple of the unit in the last of 53
  binary places, a tie going to the even one.
\<close>

definition round_double :: "int \<Rightarrow> int" where
  "round_double x =
     (let m = \<bar>x\<bar> in
      if m \<le> 2 ^ 53 then x
      else
        let u = 2 ^ (bitlen m - 53);
            q = m div u;
            r = m mod u;
            q' = (if u < 2 * r \<or> (2 * r = u \<and> odd q) then q + 1 else q)
        in if x < 0 then - (q' * u) else q' * u)"

text \<open>\<^verbatim>\<open>a + b\<close> on numbers: the exact sum, rounded to a double.\<close>

fun js_add :: "jsnum \<Rightarrow> jsnum \<Rightarrow> jsnum" where
  "js_add (Num a) (Num b) = Num (round_double (a + b))"
| "js_add _ _ = NaN"

definition digit_char :: "nat \<Rightarrow> char" where
  "digit_char d = char_of (48 + d)"

fun dec_digits :: "nat \<Rightarrow> string" where
  "dec_digits n =
     (if n < 10 then [digit_char n] else dec_digits (n div 10) @ [digit_char (n mod 10)])"

declare dec_digits.simps [simp del]

text \<open>\<^verbatim>\<open>String(x)\<close>, also what a template literal does to a number.\<close>

fun String_num :: "jsnum \<Rightarrow> string" where
  "String_num NaN = ''NaN''"
| "String_num (Num i) = (if i < 0 then CHR ''-'' # dec_digits (nat (- i)) else dec_digits (nat i))"

definition is_space :: "char \<Rightarrow> bool" where
  "is_space c = ((of_char c :: nat) \<in> {9, 10, 11, 12, 13, 32})"

definition is_digit :: "char \<Rightarrow> bool" where
  "is_digit c = (48 \<le> (of_char c :: nat) \<and> (of_char c :: nat) \<le> 57)"

definition digit_val :: "char \<Rightarrow> nat" where
  "digit_val c = of_char c - 48"

definition digits_val :: "string \<Rightarrow> nat" where
  "digits_val ds = foldl (\<lambda>acc c. 10 * acc + digit_val c) 0 ds"

text \<open>
  \<^verbatim>\<open>parseInt(str, 10)\<close>: leading white space (the ASCII white space here) is skipped, a
  sign is read, then the longest run of decimal digits; no digit gives \<^verbatim>\<open>NaN\<close>.
\<close>

definition parseInt :: "string \<Rightarrow> jsnum" where
  "parseInt str =
     (let s = dropWhile is_space str;
          neg = (s \<noteq> [] \<and> hd s = CHR ''-'');
          s = (if s \<noteq> [] \<and> (hd s = CHR ''-'' \<or> hd s = CHR ''+'') then tl s else s);
          ds = takeWhile is_digit s
      in if ds = [] then NaN
         else Num (if neg then - int (digits_val ds) else int (digits_val ds)))"

subsection \<open>Events, the AWS services and the state of the world\<close>

text \<open>The fields of \<^verbatim>\<open>event.detail\<close> the handler reads; a missing field is \<^verbatim>\<open>undefined\<close>.\<close>

record detail =
  build_id :: "string option"
  build_status :: "string option"
  state :: "string option"
  pipeline :: "string option"
  stage :: "string option"
  execution_id :: "string option"

record event =
  detail_type :: "string option"
  detail :: "detail option"

text \<open>\<^verbatim>\<open>event.detail || {}\<close>.\<close>

definition or_no_detail :: "detail option \<Rightarrow> detail" where
  "or_no_detail d =
     (case d of
        None \<Rightarrow> \<lparr>build_id = None, build_status = None, state = None, pipeline = None,
                 stage = None, execution_id = None\<rparr>
      | Some x \<Rightarrow> x)"

text \<open>
  A build as CodeBuild describes it: the handler reads its \<^verbatim>\<open>projectName\<close> and
  serialises the whole object with \<^verbatim>\<open>JSON.stringify\<close>; the record carries that text.
\<close>

record build =
  projectName :: "string option"
  json :: string

definition JSON_stringify :: "build option \<Rightarrow> string option" where
  "JSON_stringify b = (case b of None \<Rightarrow> None | Some x \<Rightarrow> Some (json x))"

text \<open>A DynamoDB attribute value and an item; the table is keyed by \<^verbatim>\<open>incidentId\<close>.\<close>

datatype attr = S string | N string

type_synonym item = "string \<rightharpoonup> attr"

text \<open>The requests the handler sends, with the parameters it sends them with.\<close>

datatype call =
    BatchGetBuilds "string option"
  | UpdateProject "string option" int
  | StartBuild "string option" string
  | RetryStageExecution "string option" "string option" "string option" string
  | GetItem "string option" string
  | PutItem "string option" item
  | Publish string string
  | SetTimeout nat

record world =
  table :: "string \<rightharpoonup> item"
  trace :: "call list"

text \<open>
  What the services answer during one invocation: which requests are rejected, the
  \<^verbatim>\<open>builds\<close> array of the answer of \<^verbatim>\<open>batchGetBuilds\<close>, and the clock.
\<close>

record aws =
  rejects :: "call \<Rightarrow> bool"
  builds :: "string option \<Rightarrow> build list option"
  now_ms :: int
  now_iso :: string

text \<open>The configuration read from the process environment (lines 23 to 25).\<close>

record config =
  TABLE :: "string option"
  TOPIC_ARN :: "string option"
  MAX_RETRIES :: jsnum

definition config_of :: "(string \<rightharpoonup> string) \<Rightarrow> config" where
  "config_of env =
     \<lparr>TABLE = env ''TABLE'',
      TOPIC_ARN = env ''TOPIC_ARN'',
      MAX_RETRIES =
        parseInt (case env ''MAX_RETRIES'' of
                    None \<Rightarrow> ''2''
                  | Some v \<Rightarrow> if v = [] then ''2'' else v)\<rparr>"

subsection \<open>Awaited requests: a state and error monad\<close>

datatype error = Rejected call

type_synonym 'a io = "world \<Rightarrow> (error + 'a) \<times> world"

definition io_return :: "'a \<Rightarrow> 'a io" where
  "io_return x w = (Inr x, w)"

definition io_bind :: "'a io \<Rightarrow> ('a \<Rightarrow> 'b io) \<Rightarrow> 'b io" where
  "io_bind m f w = (case m w of (Inl e, w') \<Rightarrow> (Inl e, w') | (Inr x, w') \<Rightarrow> f x w')"

text \<open>
  \<^verbatim>\<open>await service.operation(params).promise()\<close>: the request is sent (and logged); a
  rejected promise throws.
\<close>

definition request :: "aws \<Rightarrow> call \<Rightarrow> unit io" where
  "request a c w =
     (let w' = w\<lparr>trace := trace w @ [c]\<rparr>
      in if rejects a c then (Inl (Rejected c), w') else (Inr (), w'))"

definition getItem :: "config \<Rightarrow> aws \<Rightarrow> string \<Rightarrow> item option io" where
  "getItem cfg a k =
     io_bind (request a (GetItem (TABLE cfg) k)) (\<lambda>_ w. (Inr (table w k), w))"

definition putItem :: "config \<Rightarrow> aws \<Rightarrow> string \<Rightarrow> item \<Rightarrow> unit io" where
  "putItem cfg a k it =
     io_bind (request a (PutItem (TABLE cfg) it))
       (\<lambda>_ w. (Inr (), w\<lparr>table := (table w)(k \<mapsto> it)\<rparr>))"

text \<open>\<^verbatim>\<open>await new Promise(res => setTimeout(res, ms))\<close>.\<close>

definition setTimeout :: "nat \<Rightarrow> unit io" where
  "setTimeout ms w = (Inr (), w\<lparr>trace := trace w @ [SetTimeout ms]\<rparr>)"

subsection \<open>getRetries, saveIncident, notify (lines 108 to 133)\<close>

text \<open>
  The number \<^verbatim>\<open>getRetries\<close> makes of the answer of \<^verbatim>\<open>getItem\<close>:
  \<^verbatim>\<open>n = out.Item && out.Item.retries && out.Item.retries.N; n ? parseInt(n, 10) : 0\<close>.
\<close>

definition retries_of :: "item option \<Rightarrow> jsnum" where
  "retries_of out =
     (let n = (case out of
                 None \<Rightarrow> None
               | Some it \<Rightarrow> (case it ''retries'' of Some (N n) \<Rightarrow> Some n | _ \<Rightarrow> None))
      in case n of None \<Rightarrow> Num 0 | Some v \<Rightarrow> if v = [] then Num 0 else parseInt v)"

definition getRetries :: "config \<Rightarrow> aws \<Rightarrow> string \<Rightarrow> jsnum io" where
  "getRetries cfg a incidentId =
     io_bind (getItem cfg a incidentId) (\<lambda>out. io_return (retries_of out))"

definition incident_item :: "aws \<Rightarrow> string \<Rightarrow> jsnum \<Rightarrow> string \<Rightarrow> string \<Rightarrow> item" where
  "incident_item a incidentId retries lastAction status =
     [''incidentId'' \<mapsto> S incidentId,
      ''retries'' \<mapsto> N (String_num retries),
      ''lastAction'' \<mapsto> S lastAction,
      ''status'' \<mapsto> S status,
      ''lastUpdated'' \<mapsto> S (now_iso a)]"

definition saveIncident ::
  "config \<Rightarrow> aws \<Rightarrow> string \<Rightarrow> jsnum \<Rightarrow> string \<Rightarrow> string \<Rightarrow> unit io" where
  "saveIncident cfg a incidentId retries lastAction status =
     putItem cfg a incidentId (incident_item a incidentId retries lastAction status)"

definition notify :: "config \<Rightarrow> aws \<Rightarrow> string \<Rightarrow> unit io" where
  "notify cfg a message =
     (case TOPIC_ARN cfg of
        None \<Rightarrow> io_return ()
      | Some arn \<Rightarrow> if arn = [] then io_return () else request a (Publish arn message))"

subsection \<open>The handler (lines 27 to 106)\<close>

text \<open>The cross mark U+274C that opens both escalation messages.\<close>

definition cross_mark :: string where
  "cross_mark = [char_of (0xE2 :: nat), char_of (0x9D :: nat), char_of (0x8C :: nat)]"

text \<open>\<^verbatim>\<open>(info.builds || [])[0]\<close> and \<^verbatim>\<open>build?.projectName\<close>.\<close>

definition first_build :: "build list option \<Rightarrow> build option" where
  "first_build bs = (case bs of None \<Rightarrow> None | Some [] \<Rightarrow> None | Some (b # _) \<Rightarrow> Some b)"

definition project_of :: "build option \<Rightarrow> string option" where
  "project_of b = (case b of None \<Rightarrow> None | Some x \<Rightarrow> projectName x)"

definition build_incidentId :: "string option \<Rightarrow> string" where
  "build_incidentId buildId = ''codebuild:'' @ tmpl buildId"

definition build_message :: "string option \<Rightarrow> string option \<Rightarrow> jsnum \<Rightarrow> string" where
  "build_message buildId pname retries =
     cross_mark @ '' Build '' @ tmpl buildId @ '' ('' @ tmpl pname @ '') failed after ''
       @ String_num retries @ '' retries''"

text \<open>Lines 36 to 76: a CodeBuild build that failed or timed out.\<close>

definition codebuild_failure :: "config \<Rightarrow> aws \<Rightarrow> detail \<Rightarrow> unit io" where
  "codebuild_failure cfg a d =
     (let buildId = build_id d in
      io_bind (request a (BatchGetBuilds buildId)) (\<lambda>_.
        let build = first_build (builds a buildId);
            pname = project_of build;
            incidentId = build_incidentId buildId
        in io_bind (getRetries cfg a incidentId) (\<lambda>retries.
             if js_ge retries (MAX_RETRIES cfg) then
               io_bind (notify cfg a (build_message buildId pname retries)) (\<lambda>_.
                 saveIncident cfg a incidentId retries ''GAVE_UP'' ''UNHEALED'')
             else
               let raw = JSON_stringify build;
                   action = classify raw
               in io_bind (if action = ''BUMP_TIMEOUT_AND_RETRY''
                           then request a (UpdateProject pname 25) else io_return ()) (\<lambda>_.
                  io_bind (if action = ''BACKOFF_AND_RETRY''
                           then setTimeout 30000 else io_return ()) (\<lambda>_.
                  io_bind (request a (StartBuild pname (String_num (Num (now_ms a))))) (\<lambda>_.
                    saveIncident cfg a incidentId (js_add retries (Num 1)) action
                      ''RETRYING''))))))"

definition stage_incidentId :: "string option \<Rightarrow> string option \<Rightarrow> string" where
  "stage_incidentId execId stageName = ''codepipeline:'' @ tmpl execId @ '':'' @ tmpl stageName"

definition stage_message :: "string option \<Rightarrow> string option \<Rightarrow> jsnum \<Rightarrow> string" where
  "stage_message pipelineName stageName retries =
     cross_mark @ '' Pipeline '' @ tmpl pipelineName @ ''/'' @ tmpl stageName
       @ '' failed after '' @ String_num retries @ '' retries''"

text \<open>Lines 84 to 103: a CodePipeline action that failed.\<close>

definition codepipeline_failure :: "config \<Rightarrow> aws \<Rightarrow> detail \<Rightarrow> unit io" where
  "codepipeline_failure cfg a d =
     (let pipelineName = pipeline d;
          stageName = stage d;
          execId = execution_id d;
          incidentId = stage_incidentId execId stageName
      in io_bind (getRetries cfg a incidentId) (\<lambda>retries.
           if js_ge retries (MAX_RETRIES cfg) then
             io_bind (notify cfg a (stage_message pipelineName stageName retries)) (\<lambda>_.
               saveIncident cfg a incidentId retries ''GAVE_UP'' ''UNHEALED'')
           else
             io_bind (request a
                        (RetryStageExecution pipelineName execId stageName ''FAILED_ACTIONS''))
               (\<lambda>_. saveIncident cfg a incidentId (js_add retries (Num 1)) ''RETRY_STAGE''
                       ''RETRYING'')))"

text \<open>
  The two guards of the handler. The build branch returns when it is taken; an event it
  does not take falls through to the pipeline test.
\<close>

definition is_build_failure :: "event \<Rightarrow> bool" where
  "is_build_failure ev =
     (includes_str (or_empty (detail_type ev)) ''CodeBuild Build State Change'' \<and>
      (build_status (or_no_detail (detail ev)) = Some ''FAILED'' \<or>
       build_status (or_no_detail (detail ev)) = Some ''TIMED_OUT''))"

definition is_stage_failure :: "event \<Rightarrow> bool" where
  "is_stage_failure ev =
     (includes_str (or_empty (detail_type ev)) ''CodePipeline Action Execution State Change'' \<and>
      state (or_no_detail (detail ev)) = Some ''FAILED'')"

definition handler :: "config \<Rightarrow> aws \<Rightarrow> event \<Rightarrow> unit io" where
  "handler cfg a ev =
     (if is_build_failure ev then codebuild_failure cfg a (or_no_detail (detail ev))
      else if is_stage_failure ev then codepipeline_failure cfg a (or_no_detail (detail ev))
      else io_return ())"


subsection \<open>What an invocation is observed to do\<close>

text \<open>The identity under which the handler files an event, when it handles the event.\<close>

definition incidentId_of :: "event \<Rightarrow> string option" where
  "incidentId_of ev =
     (if is_build_failure ev
      then Some (build_incidentId (build_id (or_no_detail (detail ev))))
      else if is_stage_failure ev
      then Some (stage_incidentId (execution_id (or_no_detail (detail ev)))
                   (stage (or_no_detail (detail ev))))
      else None)"

text \<open>The action the handler takes for an event below the retry budget.\<close>

definition chosen_action :: "aws \<Rightarrow> event \<Rightarrow> string" where
  "chosen_action a ev =
     (if is_build_failure ev
      then classify (JSON_stringify (first_build (builds a (build_id (or_no_detail (detail ev))))))
      else ''RETRY_STAGE'')"

text \<open>The message the handler hands to \<^verbatim>\<open>notify\<close> for an event past the retry budget.\<close>

definition escalation_message :: "aws \<Rightarrow> event \<Rightarrow> jsnum \<Rightarrow> string" where
  "escalation_message a ev retries =
     (if is_build_failure ev
      then build_message (build_id (or_no_detail (detail ev)))
             (project_of (first_build (builds a (build_id (or_no_detail (detail ev)))))) retries
      else stage_message (pipeline (or_no_detail (detail ev)))
             (stage (or_no_detail (detail ev))) retries)"

text \<open>The retry count a reader of the table finds under an identity.\<close>

definition stored_retries :: "world \<Rightarrow> string \<Rightarrow> jsnum" where
  "stored_retries w k = retries_of (table w k)"

text \<open>The requests one invocation sends, in order.\<close>

definition issued :: "config \<Rightarrow> aws \<Rightarrow> event \<Rightarrow> world \<Rightarrow> call list" where
  "issued cfg a ev w = drop (length (trace w)) (trace (snd (handler cfg a ev w)))"

text \<open>
  The operations of the Remediation Executor: the timeout bump, the backoff delay, the
  re-trigger of the build and the retry of the stage.
\<close>

fun is_remediation :: "call \<Rightarrow> bool" where
  "is_remediation (UpdateProject _ _) = True"
| "is_remediation (StartBuild _ _) = True"
| "is_remediation (RetryStageExecution _ _ _ _) = True"
| "is_remediation (SetTimeout _) = True"
| "is_remediation _ = False"

text \<open>Among them, the requests to the orchestration services, which may be rejected.\<close>

fun is_orchestration :: "call \<Rightarrow> bool" where
  "is_orchestration (UpdateProject _ _) = True"
| "is_orchestration (StartBuild _ _) = True"
| "is_orchestration (RetryStageExecution _ _ _ _) = True"
| "is_orchestration _ = False"

fun is_write :: "call \<Rightarrow> bool" where
  "is_write (PutItem _ _) = True"
| "is_write _ = False"

fun is_publish :: "call \<Rightarrow> bool" where
  "is_publish (Publish _ _) = True"
| "is_publish _ = False"

subsection \<open>A deployment to run the handler in\<close>

text \<open>
  The environment of the README's setup, without \<^verbatim>\<open>MAX_RETRIES\<close>; services that accept
  every request; the two kinds of failure events; a table holding one incident.
\<close>

definition demo_config :: config where
  "demo_config =
     config_of [''TABLE'' \<mapsto> ''SelfHealingIncidents'',
                ''TOPIC_ARN'' \<mapsto> ''arn:aws:sns:eu-west-1:1:SelfHealingAlerts'']"

definition silent_config :: config where
  "silent_config = config_of [''TABLE'' \<mapsto> ''SelfHealingIncidents'']"

text \<open>A budget above \<open>2^53\<close>, to run the handler at the limit of exact counts.\<close>

definition roomy_config :: config where
  "roomy_config =
     \<lparr>TABLE = Some ''SelfHealingIncidents'',
      TOPIC_ARN = Some ''arn:aws:sns:eu-west-1:1:SelfHealingAlerts'',
      MAX_RETRIES = Num 10000000000000000\<rparr>"

definition healthy_aws :: aws where
  "healthy_aws =
     \<lparr>rejects = (\<lambda>_. False),
      builds = (\<lambda>_. Some [\<lparr>projectName = Some ''demo'', json = ''{buildStatus:FAILED}''\<rparr>]),
      now_ms = 1700000000000,
      now_iso = ''2023-11-14T22:13:20.000Z''\<rparr>"

definition build_failed :: "string \<Rightarrow> event" where
  "build_failed b =
     \<lparr>detail_type = Some ''CodeBuild Build State Change'',
      detail = Some \<lparr>build_id = Some b, build_status = Some ''FAILED'', state = None,
                      pipeline = None, stage = None, execution_id = None\<rparr>\<rparr>"

definition stage_failed :: "string \<Rightarrow> string \<Rightarrow> string \<Rightarrow> event" where
  "stage_failed p e s =
     \<lparr>detail_type = Some ''CodePipeline Action Execution State Change'',
      detail = Some \<lparr>build_id = None, build_status = None, state = Some ''FAILED'',
                      pipeline = Some p, stage = Some s, execution_id = Some e\<rparr>\<rparr>"

definition outage_aws :: aws where
  "outage_aws = healthy_aws\<lparr>rejects := is_orchestration\<rparr>"

definition fresh_world :: world where
  "fresh_world = \<lparr>table = Map.empty, trace = []\<rparr>"

definition one_incident :: "string \<Rightarrow> jsnum \<Rightarrow> string \<Rightarrow> string \<Rightarrow> world" where
  "one_incident k n act st =
     \<lparr>table = [k \<mapsto> incident_item healthy_aws k n act st], trace = []\<rparr>"

subsection \<open>The words of the specification about text\<close>

text \<open>"Contains the substring": some text before, the needle, some text after.\<close>

definition contains :: "string \<Rightarrow> string \<Rightarrow> bool" where
  "contains blob needle = (\<exists>pre post. blob = pre @ needle @ post)"

text \<open>
  Two characters are the same up to case when they are equal or one is the capital
  letter \<open>A\<close> to \<open>Z\<close> of which the other is the small letter.
\<close>

definition same_letter :: "char \<Rightarrow> char \<Rightarrow> bool" where
  "same_letter c d =
     (c = d \<or>
      (of_char c \<in> {65 .. 90 :: nat} \<and> of_char d = of_char c + (32 :: nat)) \<or>
      (of_char d \<in> {65 .. 90 :: nat} \<and> of_char c = of_char d + (32 :: nat)))"

text \<open>"Contains case-insensitively": a stretch of the blob spells the needle up to case.\<close>

definition contains_ci :: "string \<Rightarrow> string \<Rightarrow> bool" where
  "contains_ci blob needle =
     (\<exists>pre mid post. blob = pre @ mid @ post \<and> list_all2 same_letter mid needle)"

section \<open>Properties\<close>

lemma includes_str_iff: "includes_str s n \<longleftrightarrow> (\<exists>pre post. s = pre @ n @ post)"
proof (induction s)
  case Nil
  then show ?case by auto
next
  case (Cons c cs)
  show ?case
  proof
    assume "includes_str (c # cs) n"
    then consider "take (length n) (c # cs) = n" | "includes_str cs n" by auto
    then show "\<exists>pre post. c # cs = pre @ n @ post"
    proof cases
      case 1
      then have "c # cs = [] @ n @ drop (length n) (c # cs)"
        by (metis append_Nil append_take_drop_id)
      then show ?thesis by blast
    next
      case 2
      with Cons.IH obtain pre post where "cs = pre @ n @ post" by auto
      then have "c # cs = (c # pre) @ n @ post" by simp
      then show ?thesis by blast
    qed
  next
    assume "\<exists>pre post. c # cs = pre @ n @ post"
    then obtain pre post where eq: "c # cs = pre @ n @ post" by auto
    show "includes_str (c # cs) n"
    proof (cases pre)
      case Nil
      with eq have "take (length n) (c # cs) = n" by simp
      then show ?thesis by simp
    next
      case (Cons p ps)
      with eq have "cs = ps @ n @ post" by simp
      with Cons.IH have "includes_str cs n" by blast
      then show ?thesis by simp
    qed
  qed
qed

subsection \<open>Substrings and case\<close>

lemma of_char_lower_char:
  "(of_char (lower_char c) :: nat) =
     (if 65 \<le> (of_char c :: nat) \<and> (of_char c :: nat) \<le> 90 then of_char c + 32 else of_char c)"
  by (simp add: lower_char_def Let_def)

lemma lower_char_eq_iff: "lower_char c = lower_char d \<longleftrightarrow> same_letter c d"
proof -
  define a b where "a = (of_char c :: nat)" and "b = (of_char d :: nat)"
  have "lower_char c = lower_char d
          \<longleftrightarrow> (of_char (lower_char c) :: nat) = of_char (lower_char d)"
    by simp
  also have "\<dots> \<longleftrightarrow> (if 65 \<le> a \<and> a \<le> 90 then a + 32 else a)
                     = (if 65 \<le> b \<and> b \<le> 90 then b + 32 else b)"
    by (simp only: of_char_lower_char a_def b_def)
  also have "\<dots> \<longleftrightarrow> (a = b \<or> (a \<in> {65 .. 90} \<and> b = a + 32) \<or> (b \<in> {65 .. 90} \<and> a = b + 32))"
    by (simp only: atLeastAtMost_iff) arith
  also have "\<dots> \<longleftrightarrow> same_letter c d"
    unfolding same_letter_def a_def b_def by simp
  finally show ?thesis .
qed

lemma same_letter_lower: "list_all2 same_letter mid needle \<longleftrightarrow> toLowerCase mid = toLowerCase needle"
  unfolding toLowerCase_def
  by (induction mid arbitrary: needle) (auto simp: list_all2_Cons1 lower_char_eq_iff Cons_eq_map_conv)

lemma map_eq_appendE:
  "map f xs = ys @ zs \<Longrightarrow> \<exists>us vs. xs = us @ vs \<and> map f us = ys \<and> map f vs = zs"
  by (auto simp: map_eq_append_conv)

lemma contains_ci_iff:
  "contains_ci blob needle \<longleftrightarrow> includes_str (toLowerCase blob) (toLowerCase needle)"
proof
  assume "contains_ci blob needle"
  then obtain pre mid post where b: "blob = pre @ mid @ post"
    and m: "list_all2 same_letter mid needle"
    unfolding contains_ci_def by blast
  from m have "toLowerCase mid = toLowerCase needle" by (simp add: same_letter_lower)
  with b have "toLowerCase blob = toLowerCase pre @ toLowerCase needle @ toLowerCase post"
    by (simp add: toLowerCase_def)
  then show "includes_str (toLowerCase blob) (toLowerCase needle)"
    unfolding includes_str_iff by blast
next
  assume "includes_str (toLowerCase blob) (toLowerCase needle)"
  then obtain p q where "map lower_char blob = p @ map lower_char needle @ q"
    unfolding includes_str_iff toLowerCase_def by blast
  then obtain pre rest where b1: "blob = pre @ rest"
    and r: "map lower_char rest = map lower_char needle @ q"
    using map_eq_appendE by blast
  from r obtain mid post where b2: "rest = mid @ post"
    and "map lower_char mid = map lower_char needle"
    using map_eq_appendE by blast
  then have "list_all2 same_letter mid needle"
    by (simp add: same_letter_lower toLowerCase_def)
  with b1 b2 show "contains_ci blob needle"
    unfolding contains_ci_def by blast
qed

lemma rate_lower: "toLowerCase ''rate exceeded'' = ''rate exceeded''"
  by code_simp

lemma contains_iff: "contains blob needle \<longleftrightarrow> includes_str blob needle"
  by (simp only: contains_def includes_str_iff)

lemma classify_cases:
  "classify raw =
     (if contains_ci (or_empty raw) ''rate exceeded'' then ''BACKOFF_AND_RETRY''
      else if contains (or_empty raw) ''TIMED_OUT'' then ''BUMP_TIMEOUT_AND_RETRY''
      else ''RETRY'')"
proof -
  have ci: "contains_ci (or_empty raw) ''rate exceeded''
              = includes_str (toLowerCase (or_empty raw)) ''rate exceeded''"
    using contains_ci_iff [of "or_empty raw" "''rate exceeded''"] by (simp only: rate_lower)
  show ?thesis
    by (simp only: ci contains_iff classify_def Let_def split: if_splits)
qed

subsection \<open>Numbers written to and read from the table\<close>

text \<open>What \<^verbatim>\<open>String\<close> writes, \<^verbatim>\<open>parseInt\<close> reads back.\<close>

lemma of_char_digit_char: "d < 10 \<Longrightarrow> (of_char (digit_char d) :: nat) = 48 + d"
  by (simp add: digit_char_def)

lemma is_digit_digit_char: "d < 10 \<Longrightarrow> is_digit (digit_char d)"
  by (simp add: is_digit_def of_char_digit_char)

lemma digit_val_digit_char: "d < 10 \<Longrightarrow> digit_val (digit_char d) = d"
  by (simp add: digit_val_def of_char_digit_char)

lemma dec_digits_all_digits: "\<forall>c \<in> set (dec_digits n). is_digit c"
proof (induction n rule: dec_digits.induct)
  case (1 n)
  show ?case
  proof (cases "n < 10")
    case True
    then show ?thesis by (simp add: dec_digits.simps [of n] is_digit_digit_char)
  next
    case False
    with 1 show ?thesis
      by (simp add: dec_digits.simps [of n] is_digit_digit_char)
  qed
qed

lemma dec_digits_not_empty: "dec_digits n \<noteq> []"
  by (simp add: dec_digits.simps [of n])

lemma digits_val_snoc: "digits_val (ds @ [c]) = 10 * digits_val ds + digit_val c"
  by (simp add: digits_val_def)

lemma digits_val_dec_digits: "digits_val (dec_digits n) = n"
proof (induction n rule: dec_digits.induct)
  case (1 n)
  show ?case
  proof (cases "n < 10")
    case True
    then show ?thesis
      by (simp add: dec_digits.simps [of n] digits_val_def digit_val_digit_char)
  next
    case False
    with 1 have "digits_val (dec_digits (n div 10)) = n div 10" by simp
    with False show ?thesis
      by (simp add: dec_digits.simps [of n] digits_val_snoc digit_val_digit_char)
  qed
qed

lemma is_digit_plain:
  "is_digit c \<Longrightarrow> \<not> is_space c \<and> c \<noteq> CHR ''-'' \<and> c \<noteq> CHR ''+''"
  by (auto simp: is_digit_def is_space_def)

lemma parseInt_digits:
  assumes "ds \<noteq> []" and "\<forall>c \<in> set ds. is_digit c"
  shows "parseInt ds = Num (int (digits_val ds))"
    and "parseInt (CHR ''-'' # ds) = Num (- int (digits_val ds))"
proof -
  from assms have h: "is_digit (hd ds)" by (simp add: hd_in_set)
  then have ns: "\<not> is_space (hd ds)" and nm: "hd ds \<noteq> CHR ''-''" and np: "hd ds \<noteq> CHR ''+''"
    using is_digit_plain by blast+
  from assms(1) ns have dw: "dropWhile is_space ds = ds"
    by (cases ds) simp_all
  from assms(2) have tw: "takeWhile is_digit ds = ds"
    by (simp add: takeWhile_eq_all_conv)
  show "parseInt ds = Num (int (digits_val ds))"
    using assms(1) nm np by (simp add: parseInt_def Let_def dw tw)
  have "\<not> is_space CHR ''-''" by (simp add: is_space_def)
  then show "parseInt (CHR ''-'' # ds) = Num (- int (digits_val ds))"
    using assms(1) by (simp add: parseInt_def Let_def tw)
qed

lemma parseInt_String_num: "parseInt (String_num (Num i)) = Num i"
  using parseInt_digits [OF dec_digits_not_empty dec_digits_all_digits]
  by (simp add: digits_val_dec_digits)

lemma parseInt_NaN: "parseInt (String_num NaN) = NaN"
  by (simp add: parseInt_def Let_def is_space_def is_digit_def)

lemma String_num_not_empty: "String_num n \<noteq> []"
  by (cases n) (simp_all add: dec_digits_not_empty)

lemma parseInt_String: "parseInt (String_num n) = n"
  by (cases n) (simp_all only: parseInt_String_num parseInt_NaN)

text \<open>Sums up to \<open>2^53\<close> are exact; one more than \<open>2^53\<close> is not a double.\<close>

lemma round_double_safe: "\<bar>x\<bar> \<le> 2 ^ 53 \<Longrightarrow> round_double x = x"
  by (simp only: round_double_def Let_def if_True)

lemma round_double_1: "round_double 1 = 1"
  by (simp add: round_double_safe)

lemma round_double_succ:
  "- (2 ^ 53) \<le> n \<Longrightarrow> n < 2 ^ 53 \<Longrightarrow> round_double (n + 1) = n + 1"
  using round_double_safe [of "n + 1"] by simp

lemma js_add_safe:
  "- (2 ^ 53) \<le> n \<Longrightarrow> n < 2 ^ 53 \<Longrightarrow> js_add (Num n) (Num 1) = Num (n + 1)"
  by (simp add: round_double_succ)

lemma round_double_limit: "round_double 9007199254740993 = 9007199254740992"
  by code_simp

lemma js_add_limit: "js_add (Num 9007199254740992) (Num 1) = Num 9007199254740992"
  by (simp add: round_double_limit)

subsection \<open>The awaited steps, evaluated\<close>

lemma request_eq:
  "request a c w =
     (if rejects a c then Inl (Rejected c) else Inr (), w\<lparr>trace := trace w @ [c]\<rparr>)"
  by (simp add: request_def Let_def)

lemma getRetries_eq:
  "getRetries cfg a k w =
     (if rejects a (GetItem (TABLE cfg) k) then Inl (Rejected (GetItem (TABLE cfg) k))
      else Inr (retries_of (table w k)), w\<lparr>trace := trace w @ [GetItem (TABLE cfg) k]\<rparr>)"
  by (simp add: getRetries_def getItem_def io_bind_def io_return_def request_eq)

lemma saveIncident_eq:
  "saveIncident cfg a k r act st w =
     (if rejects a (PutItem (TABLE cfg) (incident_item a k r act st))
      then (Inl (Rejected (PutItem (TABLE cfg) (incident_item a k r act st))),
            w\<lparr>trace := trace w @ [PutItem (TABLE cfg) (incident_item a k r act st)]\<rparr>)
      else (Inr (), w\<lparr>trace := trace w @ [PutItem (TABLE cfg) (incident_item a k r act st)],
                       table := (table w)(k \<mapsto> incident_item a k r act st)\<rparr>))"
  by (simp add: saveIncident_def putItem_def io_bind_def request_eq)

lemma retries_of_incident_item:
  "retries_of (Some (incident_item a k r act st)) = r"
  by (simp add: retries_of_def incident_item_def String_num_not_empty parseInt_String)

lemma incident_item_fields:
  "incident_item a k r act st ''incidentId'' = Some (S k)"
  "incident_item a k r act st ''retries'' = Some (N (String_num r))"
  "incident_item a k r act st ''lastAction'' = Some (S act)"
  "incident_item a k r act st ''status'' = Some (S st)"
  "incident_item a k r act st ''lastUpdated'' = Some (S (now_iso a))"
  by (simp_all add: incident_item_def)

lemmas escalate_defs =
  io_bind_def io_return_def notify_def request_eq saveIncident_eq




lemma orchestration_is_remediation: "is_orchestration c \<Longrightarrow> is_remediation c"
  by (cases c) simp_all

lemmas run_defs =
  handler_def codebuild_failure_def codepipeline_failure_def Let_def io_bind_def
  io_return_def request_eq getRetries_eq saveIncident_eq notify_def setTimeout_def

subsection \<open>The three ways an invocation runs\<close>

text \<open>
  An event the handler does not recognise does nothing. A recognised event first sends
  its reads; past the budget it then notifies and saves the terminal record; below the
  budget it sends its remediation steps, stopping at a rejected one, and then saves.
\<close>

lemma unhandled_run: "incidentId_of ev = None \<Longrightarrow> handler cfg a ev w = (Inr (), w)"
  by (simp add: incidentId_of_def handler_def io_return_def split: if_splits)

lemma exhausted_run:
  assumes k: "incidentId_of ev = Some k"
    and ge: "js_ge (stored_retries w k) (MAX_RETRIES cfg)"
  shows "\<exists>reads. (\<forall>c \<in> set reads. \<not> is_remediation c \<and> \<not> is_write c \<and> \<not> is_publish c) \<and>
           handler cfg a ev w =
             (if \<exists>c \<in> set reads. rejects a c
              then (Inl (Rejected (last reads)), w\<lparr>trace := trace w @ reads\<rparr>)
              else io_bind (notify cfg a (escalation_message a ev (stored_retries w k)))
                     (\<lambda>_. saveIncident cfg a k (stored_retries w k) ''GAVE_UP'' ''UNHEALED'')
                     (w\<lparr>trace := trace w @ reads\<rparr>))"
proof (cases "is_build_failure ev")
  case True
  let ?d = "or_no_detail (detail ev)"
  let ?reads = "if rejects a (BatchGetBuilds (build_id ?d)) then [BatchGetBuilds (build_id ?d)]
                else [BatchGetBuilds (build_id ?d), GetItem (TABLE cfg) k]"
  from True k have kk: "build_incidentId (build_id ?d) = k" by (simp add: incidentId_of_def)
  have "handler cfg a ev w =
             (if \<exists>c \<in> set ?reads. rejects a c
              then (Inl (Rejected (last ?reads)), w\<lparr>trace := trace w @ ?reads\<rparr>)
              else io_bind (notify cfg a (escalation_message a ev (stored_retries w k)))
                     (\<lambda>_. saveIncident cfg a k (stored_retries w k) ''GAVE_UP'' ''UNHEALED'')
                     (w\<lparr>trace := trace w @ ?reads\<rparr>))"
    using True ge
    by (simp add: handler_def codebuild_failure_def Let_def io_bind_def request_eq getRetries_eq
        kk stored_retries_def escalation_message_def)
  moreover have "\<forall>c \<in> set ?reads. \<not> is_remediation c \<and> \<not> is_write c \<and> \<not> is_publish c" by simp
  ultimately show ?thesis by blast
next
  case False
  let ?d = "or_no_detail (detail ev)"
  let ?reads = "[GetItem (TABLE cfg) k]"
  from False k have st: "is_stage_failure ev"
    and kk: "stage_incidentId (execution_id ?d) (stage ?d) = k"
    by (simp_all add: incidentId_of_def split: if_splits)
  have "handler cfg a ev w =
             (if \<exists>c \<in> set ?reads. rejects a c
              then (Inl (Rejected (last ?reads)), w\<lparr>trace := trace w @ ?reads\<rparr>)
              else io_bind (notify cfg a (escalation_message a ev (stored_retries w k)))
                     (\<lambda>_. saveIncident cfg a k (stored_retries w k) ''GAVE_UP'' ''UNHEALED'')
                     (w\<lparr>trace := trace w @ ?reads\<rparr>))"
    using False st ge
    by (simp add: handler_def codepipeline_failure_def Let_def io_bind_def request_eq getRetries_eq
        kk stored_retries_def escalation_message_def)
  moreover have "\<forall>c \<in> set ?reads. \<not> is_remediation c \<and> \<not> is_write c \<and> \<not> is_publish c" by simp
  ultimately show ?thesis by blast
qed


lemma below_budget_run:
  assumes k: "incidentId_of ev = Some k"
    and lt: "\<not> js_ge (stored_retries w k) (MAX_RETRIES cfg)"
  shows "\<exists>reads steps.
           (\<forall>c \<in> set reads. \<not> is_remediation c \<and> \<not> is_write c \<and> \<not> is_publish c) \<and>
           (\<forall>c \<in> set steps. is_remediation c) \<and>
           (\<forall>c \<in> set steps. is_orchestration c \<and> rejects a c \<longrightarrow> c = last steps) \<and>
           handler cfg a ev w =
             (if \<exists>c \<in> set reads. rejects a c
              then (Inl (Rejected (last reads)), w\<lparr>trace := trace w @ reads\<rparr>)
              else if \<exists>c \<in> set steps. is_orchestration c \<and> rejects a c
              then (Inl (Rejected (last steps)), w\<lparr>trace := trace w @ reads @ steps\<rparr>)
              else saveIncident cfg a k (js_add (stored_retries w k) (Num 1))
                     (chosen_action a ev) ''RETRYING'' (w\<lparr>trace := trace w @ reads @ steps\<rparr>))"
proof (cases "is_build_failure ev")
  case True
  let ?d = "or_no_detail (detail ev)"
  let ?p = "project_of (first_build (builds a (build_id ?d)))"
  let ?up = "UpdateProject ?p 25"
  let ?sb = "StartBuild ?p (String_num (Num (now_ms a)))"
  let ?reads = "if rejects a (BatchGetBuilds (build_id ?d)) then [BatchGetBuilds (build_id ?d)]
                else [BatchGetBuilds (build_id ?d), GetItem (TABLE cfg) k]"
  let ?steps = "if chosen_action a ev = ''BUMP_TIMEOUT_AND_RETRY''
                then (if rejects a ?up then [?up] else [?up, ?sb])
                else if chosen_action a ev = ''BACKOFF_AND_RETRY'' then [SetTimeout 30000, ?sb]
                else [?sb]"
  from True k have kk: "build_incidentId (build_id ?d) = k" by (simp add: incidentId_of_def)
  from True have act: "classify (JSON_stringify (first_build (builds a (build_id ?d))))
                        = chosen_action a ev"
    by (simp add: chosen_action_def)
  have "handler cfg a ev w =
             (if \<exists>c \<in> set ?reads. rejects a c
              then (Inl (Rejected (last ?reads)), w\<lparr>trace := trace w @ ?reads\<rparr>)
              else if \<exists>c \<in> set ?steps. is_orchestration c \<and> rejects a c
              then (Inl (Rejected (last ?steps)), w\<lparr>trace := trace w @ ?reads @ ?steps\<rparr>)
              else saveIncident cfg a k (js_add (stored_retries w k) (Num 1))
                     (chosen_action a ev) ''RETRYING'' (w\<lparr>trace := trace w @ ?reads @ ?steps\<rparr>))"
    using True lt
    by (simp add: handler_def codebuild_failure_def Let_def io_bind_def io_return_def request_eq
        getRetries_eq setTimeout_def kk act stored_retries_def)
  moreover have "\<forall>c \<in> set ?reads. \<not> is_remediation c \<and> \<not> is_write c \<and> \<not> is_publish c"
    by simp
  moreover have "\<forall>c \<in> set ?steps. is_remediation c" by simp
  moreover have "\<forall>c \<in> set ?steps. is_orchestration c \<and> rejects a c \<longrightarrow> c = last ?steps"
    by auto
  ultimately show ?thesis by blast
next
  case False
  let ?d = "or_no_detail (detail ev)"
  let ?reads = "[GetItem (TABLE cfg) k]"
  let ?steps = "[RetryStageExecution (pipeline ?d) (execution_id ?d) (stage ?d) ''FAILED_ACTIONS'']"
  from False k have st: "is_stage_failure ev"
    and kk: "stage_incidentId (execution_id ?d) (stage ?d) = k"
    by (simp_all add: incidentId_of_def split: if_splits)
  from False have act: "chosen_action a ev = ''RETRY_STAGE''"
    by (simp add: chosen_action_def)
  have "handler cfg a ev w =
             (if \<exists>c \<in> set ?reads. rejects a c
              then (Inl (Rejected (last ?reads)), w\<lparr>trace := trace w @ ?reads\<rparr>)
              else if \<exists>c \<in> set ?steps. is_orchestration c \<and> rejects a c
              then (Inl (Rejected (last ?steps)), w\<lparr>trace := trace w @ ?reads @ ?steps\<rparr>)
              else saveIncident cfg a k (js_add (stored_retries w k) (Num 1))
                     (chosen_action a ev) ''RETRYING'' (w\<lparr>trace := trace w @ ?reads @ ?steps\<rparr>))"
    using False st lt
    by (simp add: handler_def codepipeline_failure_def Let_def io_bind_def request_eq
        getRetries_eq kk act stored_retries_def)
  moreover have "\<forall>c \<in> set ?reads. \<not> is_remediation c \<and> \<not> is_write c \<and> \<not> is_publish c"
    by simp
  moreover have "\<forall>c \<in> set ?steps. is_remediation c" by simp
  moreover have "\<forall>c \<in> set ?steps. is_orchestration c \<and> rejects a c \<longrightarrow> c = last ?steps"
    by simp
  ultimately show ?thesis by blast
qed

lemma remediation_not_write: "is_remediation c \<Longrightarrow> \<not> is_write c"
  by (cases c) simp_all

lemma exhausted_issued:
  assumes "incidentId_of ev = Some k"
    and "js_ge (stored_retries w k) (MAX_RETRIES cfg)"
  shows "\<forall>c \<in> set (issued cfg a ev w). \<not> is_remediation c"
proof -
  from exhausted_run [OF assms, of a] obtain reads
    where r: "\<forall>c \<in> set reads. \<not> is_remediation c \<and> \<not> is_write c \<and> \<not> is_publish c"
      and h: "handler cfg a ev w =
             (if \<exists>c \<in> set reads. rejects a c
              then (Inl (Rejected (last reads)), w\<lparr>trace := trace w @ reads\<rparr>)
              else io_bind (notify cfg a (escalation_message a ev (stored_retries w k)))
                     (\<lambda>_. saveIncident cfg a k (stored_retries w k) ''GAVE_UP'' ''UNHEALED'')
                     (w\<lparr>trace := trace w @ reads\<rparr>))"
    by blast
  show ?thesis
    unfolding issued_def h using r
    by (auto simp: escalate_defs split: option.splits)
qed

subsection \<open>What an invocation writes\<close>






lemma below_budget_success:
  assumes k: "incidentId_of ev = Some k"
    and lt: "\<not> js_ge (stored_retries w k) (MAX_RETRIES cfg)"
    and ok: "\<forall>c. \<not> rejects a c"
  shows "\<exists>sent. handler cfg a ev w =
           (Inr (),
            w\<lparr>trace := trace w @ sent @
                 [PutItem (TABLE cfg)
                    (incident_item a k (js_add (stored_retries w k) (Num 1))
                       (chosen_action a ev) ''RETRYING'')],
              table := (table w)
                 (k \<mapsto> incident_item a k (js_add (stored_retries w k) (Num 1))
                         (chosen_action a ev) ''RETRYING'')\<rparr>)"
proof -
  from below_budget_run [OF k lt, of a] obtain reads steps
    where h: "handler cfg a ev w =
             (if \<exists>c \<in> set reads. rejects a c
              then (Inl (Rejected (last reads)), w\<lparr>trace := trace w @ reads\<rparr>)
              else if \<exists>c \<in> set steps. is_orchestration c \<and> rejects a c
              then (Inl (Rejected (last steps)), w\<lparr>trace := trace w @ reads @ steps\<rparr>)
              else saveIncident cfg a k (js_add (stored_retries w k) (Num 1))
                     (chosen_action a ev) ''RETRYING'' (w\<lparr>trace := trace w @ reads @ steps\<rparr>))"
    by blast
  from ok have "handler cfg a ev w =
           (Inr (),
            w\<lparr>trace := trace w @ (reads @ steps) @
                 [PutItem (TABLE cfg)
                    (incident_item a k (js_add (stored_retries w k) (Num 1))
                       (chosen_action a ev) ''RETRYING'')],
              table := (table w)
                 (k \<mapsto> incident_item a k (js_add (stored_retries w k) (Num 1))
                         (chosen_action a ev) ''RETRYING'')\<rparr>)"
    by (simp add: h saveIncident_eq)
  then show ?thesis by blast
qed


subsection \<open>Identities\<close>

lemma split_at_first:
  "c \<notin> set xs \<Longrightarrow> c \<notin> set xs' \<Longrightarrow> xs @ c # ys = xs' @ c # ys' \<Longrightarrow> xs = xs' \<and> ys = ys'"
proof (induction xs arbitrary: xs')
  case Nil
  then show ?case by (cases xs') auto
next
  case (Cons x xs)
  then show ?case by (cases xs') auto
qed

lemma split_at_last:
  assumes "c \<notin> set ys" and "c \<notin> set ys'" and "xs @ c # ys = xs' @ c # ys'"
  shows "xs = xs' \<and> ys = ys'"
proof -
  from assms(3) have "rev (xs @ c # ys) = rev (xs' @ c # ys')" by simp
  then have "rev ys @ c # rev xs = rev ys' @ c # rev xs'" by simp
  with assms(1,2) have "rev ys = rev ys' \<and> rev xs = rev xs'"
    using split_at_first [of c "rev ys" "rev ys'" "rev xs" "rev xs'"] by simp
  then show ?thesis by simp
qed

lemma stage_incidentId_inj:
  assumes "(CHR '':'' \<notin> set (tmpl e1) \<and> CHR '':'' \<notin> set (tmpl e2)) \<or>
           (CHR '':'' \<notin> set (tmpl s1) \<and> CHR '':'' \<notin> set (tmpl s2))"
    and "stage_incidentId e1 s1 = stage_incidentId e2 s2"
  shows "tmpl e1 = tmpl e2 \<and> tmpl s1 = tmpl s2"
proof -
  from assms(2) have eq: "tmpl e1 @ CHR '':'' # tmpl s1 = tmpl e2 @ CHR '':'' # tmpl s2"
    by (simp add: stage_incidentId_def)
  from assms(1) show ?thesis
    using split_at_first [OF _ _ eq] split_at_last [OF _ _ eq] by blast
qed

text \<open>Why the colon matters: the separator of the key is not escaped.\<close>

lemma stage_identity_colon_example:
  "stage_incidentId (Some ''a:b'') (Some ''c'') = stage_incidentId (Some ''a'') (Some ''b:c'')"
  by (simp add: stage_incidentId_def tmpl_def)

subsection \<open>The deployment, evaluated\<close>

lemma includes_str_self: "includes_str s s"
  unfolding includes_str_iff by (metis append_Nil append_Nil2)

lemma demo_config_simps:
  "TABLE demo_config = Some ''SelfHealingIncidents''"
  "TOPIC_ARN demo_config = Some ''arn:aws:sns:eu-west-1:1:SelfHealingAlerts''"
  "MAX_RETRIES demo_config = Num 2"
proof -
  have "parseInt ''2'' = Num 2" by code_simp
  then show "MAX_RETRIES demo_config = Num 2"
    by (simp add: demo_config_def config_of_def)
qed (simp_all add: demo_config_def config_of_def)

lemma silent_config_simps:
  "TABLE silent_config = Some ''SelfHealingIncidents''"
  "TOPIC_ARN silent_config = None"
  "MAX_RETRIES silent_config = Num 2"
proof -
  have "parseInt ''2'' = Num 2" by code_simp
  then show "MAX_RETRIES silent_config = Num 2"
    by (simp add: silent_config_def config_of_def)
qed (simp_all add: silent_config_def config_of_def)

lemma build_failed_simps:
  "is_build_failure (build_failed b)"
  "incidentId_of (build_failed b) = Some (''codebuild:'' @ b)"
  by (simp_all add: build_failed_def incidentId_of_def is_build_failure_def or_no_detail_def
      or_empty_def includes_str_self build_incidentId_def tmpl_def)

lemma stage_failed_simps:
  "\<not> is_build_failure (stage_failed p e s)"
  "is_stage_failure (stage_failed p e s)"
  "incidentId_of (stage_failed p e s) = Some (''codepipeline:'' @ e @ '':'' @ s)"
  by (simp_all add: stage_failed_def incidentId_of_def is_build_failure_def is_stage_failure_def
      or_no_detail_def or_empty_def includes_str_self stage_incidentId_def tmpl_def)

lemma one_incident_simps:
  "stored_retries (one_incident k n act st) k = n"
  "trace (one_incident k n act st) = []"
  by (simp_all add: one_incident_def stored_retries_def retries_of_incident_item)

lemma roomy_config_simps:
  "TABLE roomy_config = Some ''SelfHealingIncidents''"
  "TOPIC_ARN roomy_config = Some ''arn:aws:sns:eu-west-1:1:SelfHealingAlerts''"
  "MAX_RETRIES roomy_config = Num 10000000000000000"
  by (simp_all add: roomy_config_def)

lemma healthy_aws_simps:
  "rejects healthy_aws c = False"
  by (simp add: healthy_aws_def)

lemma fresh_world_simps:
  "stored_retries fresh_world k = Num 0"
  "trace fresh_world = []"
  "table fresh_world = Map.empty"
  by (simp_all add: fresh_world_def stored_retries_def retries_of_def)

lemma outage_aws_simps:
  "rejects outage_aws c = is_orchestration c"
  by (simp add: outage_aws_def)

section \<open>The claims\<close>

text \<open>
  C1. The action of a build failure is the last match over a default: \<^verbatim>\<open>RETRY\<close>, turned into
  \<^verbatim>\<open>BUMP_TIMEOUT_AND_RETRY\<close> when the serialised build contains \<^verbatim>\<open>TIMED_OUT\<close>, turned into
  \<^verbatim>\<open>BACKOFF_AND_RETRY\<close> when it contains \<^verbatim>\<open>rate exceeded\<close> in any case. The rate-limit rule
  wins when both markers are present, and a blob with neither marker gives \<^verbatim>\<open>RETRY\<close>.
\<close>

theorem classify_last_match_wins:
  "classify raw =
     (if contains_ci (or_empty raw) ''rate exceeded'' then ''BACKOFF_AND_RETRY''
      else if contains (or_empty raw) ''TIMED_OUT'' then ''BUMP_TIMEOUT_AND_RETRY''
      else ''RETRY'')"
  by (rule classify_cases)

theorem classify_last_match_wins_witness:
  "contains_ci ''phase TIMED_OUT: Rate Exceeded'' ''rate exceeded'' \<and>
   contains ''phase TIMED_OUT: Rate Exceeded'' ''TIMED_OUT'' \<and>
   classify (Some ''phase TIMED_OUT: Rate Exceeded'') = ''BACKOFF_AND_RETRY''"
proof -
  have ci: "contains_ci ''phase TIMED_OUT: Rate Exceeded'' ''rate exceeded''"
    unfolding contains_ci_iff by code_simp
  have cs: "contains ''phase TIMED_OUT: Rate Exceeded'' ''TIMED_OUT''"
    unfolding contains_iff by code_simp
  show ?thesis
    using ci cs classify_last_match_wins [of "Some ''phase TIMED_OUT: Rate Exceeded''"]
    by (simp add: or_empty_def)
qed

text \<open>
  C9. The two checks differ in case handling. A blob that spells the timeout marker only
  in another case, and has no rate-limit phrase, is classified \<^verbatim>\<open>RETRY\<close>; the rate-limit
  phrase is found in any case.
\<close>

theorem timeout_check_case_sensitive:
  "(contains_ci (or_empty raw) ''TIMED_OUT'' \<and> \<not> contains (or_empty raw) ''TIMED_OUT'' \<and>
    \<not> contains_ci (or_empty raw) ''rate exceeded'' \<longrightarrow> classify raw = ''RETRY'') \<and>
   (contains_ci (or_empty raw) ''rate exceeded'' \<longrightarrow> classify raw = ''BACKOFF_AND_RETRY'')"
  by (simp add: classify_cases)

theorem timeout_check_case_sensitive_witness:
  "contains_ci ''status: timed_out'' ''TIMED_OUT'' \<and>
   \<not> contains ''status: timed_out'' ''TIMED_OUT'' \<and>
   \<not> contains_ci ''status: timed_out'' ''rate exceeded'' \<and>
   classify (Some ''status: timed_out'') = ''RETRY'' \<and>
   contains_ci ''RATE EXCEEDED'' ''rate exceeded'' \<and>
   classify (Some ''RATE EXCEEDED'') = ''BACKOFF_AND_RETRY''"
proof -
  have a: "contains_ci ''status: timed_out'' ''TIMED_OUT''"
    unfolding contains_ci_iff by code_simp
  have b: "\<not> contains ''status: timed_out'' ''TIMED_OUT''"
    unfolding contains_iff by code_simp
  have c: "\<not> contains_ci ''status: timed_out'' ''rate exceeded''"
    unfolding contains_ci_iff by code_simp
  have d: "contains_ci ''RATE EXCEEDED'' ''rate exceeded''"
    unfolding contains_ci_iff by code_simp
  show ?thesis
    using a b c d timeout_check_case_sensitive [of "Some ''status: timed_out''"]
      timeout_check_case_sensitive [of "Some ''RATE EXCEEDED''"]
    by (simp add: or_empty_def)
qed



text \<open>
  C3. When a request to the orchestration services that the invocation sends (the
  timeout bump, the re-trigger of the build, the retry of the stage) is rejected, the
  invocation ends with that error, it has sent no \<^verbatim>\<open>putItem\<close>, and the table is what it was:
  every stored retry count is unchanged, and the next \<^verbatim>\<open>getRetries\<close> reads what this one
  read.
\<close>

theorem failed_remediation_leaves_store:
  assumes c: "c \<in> set (issued cfg a ev w)" and o: "is_orchestration c" and rej: "rejects a c"
  shows "fst (handler cfg a ev w) = Inl (Rejected c) \<and>
         table (snd (handler cfg a ev w)) = table w \<and>
         (\<forall>x \<in> set (issued cfg a ev w). \<not> is_write x) \<and>
         (\<forall>k. stored_retries (snd (handler cfg a ev w)) k = stored_retries w k) \<and>
         (\<forall>a' k. fst (getRetries cfg a' k (snd (handler cfg a ev w)))
                  = fst (getRetries cfg a' k w))"
proof -
  from o have rem: "is_remediation c" by (rule orchestration_is_remediation)
  have some: "incidentId_of ev \<noteq> None"
  proof
    assume "incidentId_of ev = None"
    then have "issued cfg a ev w = []" by (simp add: issued_def unhandled_run)
    with c show False by simp
  qed
  then obtain k where k: "incidentId_of ev = Some k" by blast
  have lt: "\<not> js_ge (stored_retries w k) (MAX_RETRIES cfg)"
    using exhausted_issued [OF k, of w cfg a] c rem by blast
  from below_budget_run [OF k lt, of a] obtain reads steps
    where r: "\<forall>c \<in> set reads. \<not> is_remediation c \<and> \<not> is_write c \<and> \<not> is_publish c"
      and s: "\<forall>c \<in> set steps. is_remediation c"
      and l: "\<forall>c \<in> set steps. is_orchestration c \<and> rejects a c \<longrightarrow> c = last steps"
      and h: "handler cfg a ev w =
             (if \<exists>c \<in> set reads. rejects a c
              then (Inl (Rejected (last reads)), w\<lparr>trace := trace w @ reads\<rparr>)
              else if \<exists>c \<in> set steps. is_orchestration c \<and> rejects a c
              then (Inl (Rejected (last steps)), w\<lparr>trace := trace w @ reads @ steps\<rparr>)
              else saveIncident cfg a k (js_add (stored_retries w k) (Num 1))
                     (chosen_action a ev) ''RETRYING'' (w\<lparr>trace := trace w @ reads @ steps\<rparr>))"
    by blast
  have nr: "\<not> (\<exists>c \<in> set reads. rejects a c)"
  proof
    assume "\<exists>c \<in> set reads. rejects a c"
    then have "issued cfg a ev w = reads" by (simp add: issued_def h)
    with c r rem show False by blast
  qed
  have cs: "c \<in> set steps"
  proof -
    have "set (issued cfg a ev w) \<subseteq> set reads \<union> set steps \<union> {x. is_write x}"
      unfolding issued_def h by (auto simp: saveIncident_eq)
    with c r rem remediation_not_write [OF rem] show ?thesis by blast
  qed
  with o rej l have last: "c = last steps" and ex: "\<exists>c \<in> set steps. is_orchestration c \<and> rejects a c"
    by blast+
  have run: "handler cfg a ev w = (Inl (Rejected c), w\<lparr>trace := trace w @ reads @ steps\<rparr>)"
    using nr ex last by (simp add: h)
  have 1: "table (snd (handler cfg a ev w)) = table w" by (simp add: run)
  have "issued cfg a ev w = reads @ steps" by (simp add: issued_def run)
  moreover have "\<forall>x \<in> set steps. \<not> is_write x"
    using s remediation_not_write by blast
  ultimately have 2: "\<forall>x \<in> set (issued cfg a ev w). \<not> is_write x"
    using r by auto
  have 3: "\<forall>k. stored_retries (snd (handler cfg a ev w)) k = stored_retries w k"
    by (simp add: stored_retries_def 1)
  have 4: "\<forall>a' k. fst (getRetries cfg a' k (snd (handler cfg a ev w)))
                  = fst (getRetries cfg a' k w)"
    by (simp add: getRetries_eq 1)
  from run 1 2 3 4 show ?thesis by simp
qed

theorem failed_remediation_leaves_store_witness:
  "RetryStageExecution (Some ''p1'') (Some ''e1'') (Some ''Build'') ''FAILED_ACTIONS''
     \<in> set (issued demo_config outage_aws (stage_failed ''p1'' ''e1'' ''Build'') fresh_world) \<and>
   is_orchestration
     (RetryStageExecution (Some ''p1'') (Some ''e1'') (Some ''Build'') ''FAILED_ACTIONS'') \<and>
   rejects outage_aws
     (RetryStageExecution (Some ''p1'') (Some ''e1'') (Some ''Build'') ''FAILED_ACTIONS'') \<and>
   fst (handler demo_config outage_aws (stage_failed ''p1'' ''e1'' ''Build'') fresh_world)
     = Inl (Rejected
         (RetryStageExecution (Some ''p1'') (Some ''e1'') (Some ''Build'') ''FAILED_ACTIONS'')) \<and>
   stored_retries
     (snd (handler demo_config outage_aws (stage_failed ''p1'' ''e1'' ''Build'') fresh_world))
     ''codepipeline:e1:Build'' = Num 0"
proof -
  let ?c = "RetryStageExecution (Some ''p1'') (Some ''e1'') (Some ''Build'') ''FAILED_ACTIONS''"
  let ?ev = "stage_failed ''p1'' ''e1'' ''Build''"
  have d: "or_no_detail (detail ?ev)
             = \<lparr>build_id = None, build_status = None, state = Some ''FAILED'',
                pipeline = Some ''p1'', stage = Some ''Build'', execution_id = Some ''e1''\<rparr>"
    by (simp add: stage_failed_def or_no_detail_def)
  have run: "handler demo_config outage_aws ?ev fresh_world
               = (Inl (Rejected ?c),
                  fresh_world\<lparr>trace := [GetItem (Some ''SelfHealingIncidents'')
                                         ''codepipeline:e1:Build'', ?c]\<rparr>)"
    by (simp add: handler_def stage_failed_simps codepipeline_failure_def d Let_def io_bind_def
        request_eq getRetries_eq outage_aws_simps demo_config_simps fresh_world_simps
        stage_incidentId_def tmpl_def retries_of_def)
  have h1: "?c \<in> set (issued demo_config outage_aws ?ev fresh_world)"
    by (simp add: issued_def run fresh_world_simps)
  have h2: "is_orchestration ?c" by simp
  have h3: "rejects outage_aws ?c" by (simp add: outage_aws_simps)
  from failed_remediation_leaves_store [OF h1 h2 h3]
  have "fst (handler demo_config outage_aws ?ev fresh_world) = Inl (Rejected ?c)"
    and "stored_retries (snd (handler demo_config outage_aws ?ev fresh_world))
           ''codepipeline:e1:Build'' = Num 0"
    by (simp_all add: fresh_world_simps)
  with h1 h2 h3 show ?thesis by blast
qed

text \<open>
  C4. A recognised failure event whose stored retry count \<open>n\<close> is below \<^verbatim>\<open>MAX_RETRIES\<close> and
  from \<open>- 2^53\<close> to below \<open>2^53\<close>, in an invocation none of whose requests is rejected, ends
  normally and has stored, under the identity of the event, the count \<open>n + 1\<close>, the chosen action as
  \<^verbatim>\<open>lastAction\<close> and the status \<^verbatim>\<open>RETRYING\<close>; this holds for build events and for stage
  events.
\<close>

theorem remediation_success_persists:
  assumes k: "incidentId_of ev = Some k" and n: "stored_retries w k = Num n"
    and m: "MAX_RETRIES cfg = Num m" and nm: "n < m"
    and lo: "- (2 ^ 53) \<le> n" and hi: "n < 2 ^ 53"
    and ok: "\<forall>c. \<not> rejects a c"
  shows "fst (handler cfg a ev w) = Inr () \<and>
         (\<exists>it. table (snd (handler cfg a ev w)) = (table w)(k \<mapsto> it) \<and>
               it ''retries'' = Some (N (String_num (Num (n + 1)))) \<and>
               it ''lastAction'' = Some (S (chosen_action a ev)) \<and>
               it ''status'' = Some (S ''RETRYING'')) \<and>
         stored_retries (snd (handler cfg a ev w)) k = Num (n + 1)"
proof -
  from n m nm have lt: "\<not> js_ge (stored_retries w k) (MAX_RETRIES cfg)" by simp
  from lo hi n have add: "js_add (stored_retries w k) (Num 1) = Num (n + 1)"
    by (simp only: js_add_safe)
  let ?it = "incident_item a k (Num (n + 1)) (chosen_action a ev) ''RETRYING''"
  from below_budget_success [OF k lt ok] obtain sent
    where run: "handler cfg a ev w =
      (Inr (), w\<lparr>trace := trace w @ sent @ [PutItem (TABLE cfg) ?it],
                 table := (table w)(k \<mapsto> ?it)\<rparr>)"
    unfolding add by blast
  have 1: "fst (handler cfg a ev w) = Inr ()" by (simp add: run)
  have 2: "table (snd (handler cfg a ev w)) = (table w)(k \<mapsto> ?it)" by (simp add: run)
  have 3: "stored_retries (snd (handler cfg a ev w)) k = Num (n + 1)"
    by (simp add: stored_retries_def 2 retries_of_incident_item)
  from 1 2 3 show ?thesis
    using incident_item_fields [of a k "Num (n + 1)" "chosen_action a ev" "''RETRYING''"]
    by blast
qed

theorem remediation_success_persists_witness:
  "incidentId_of (build_failed ''b1'') = Some ''codebuild:b1'' \<and>
   stored_retries fresh_world ''codebuild:b1'' = Num 0 \<and>
   MAX_RETRIES demo_config = Num 2 \<and> (0 :: int) < 2 \<and>
   - (2 ^ 53) \<le> (0 :: int) \<and> (0 :: int) < 2 ^ 53 \<and>
   (\<forall>c. \<not> rejects healthy_aws c) \<and>
   fst (handler demo_config healthy_aws (build_failed ''b1'') fresh_world) = Inr () \<and>
   stored_retries (snd (handler demo_config healthy_aws (build_failed ''b1'') fresh_world))
     ''codebuild:b1'' = Num 1"
proof -
  have h1: "incidentId_of (build_failed ''b1'') = Some ''codebuild:b1''"
    by (simp add: build_failed_simps)
  have h2: "stored_retries fresh_world ''codebuild:b1'' = Num 0"
    by (simp add: fresh_world_simps)
  have h3: "MAX_RETRIES demo_config = Num 2" by (simp add: demo_config_simps)
  have h4: "(0 :: int) < 2" by simp
  have h5: "- (2 ^ 53) \<le> (0 :: int)" and h5': "(0 :: int) < 2 ^ 53" by simp_all
  have h6: "\<forall>c. \<not> rejects healthy_aws c" by (simp add: healthy_aws_simps)
  from remediation_success_persists [OF h1 h2 h3 h4 h5 h5' h6]
  have "fst (handler demo_config healthy_aws (build_failed ''b1'') fresh_world) = Inr ()"
    and "stored_retries (snd (handler demo_config healthy_aws (build_failed ''b1'') fresh_world))
     ''codebuild:b1'' = Num 1"
    by simp_all
  with h1 h2 h3 h4 h5 h5' h6 show ?thesis by blast
qed

text \<open>
  C4, worded for every count below the budget, does not hold: the count is a double.
  With \<open>2^53 = 9007199254740992\<close> stored and a budget of \<open>10^16\<close>, every request accepted,
  the invocation ends normally and the record it writes carries 9007199254740992 again,
  since \<open>2^53 + 1\<close> is rounded back to \<open>2^53\<close>.
\<close>

theorem remediation_at_double_limit_counterexample:
  "incidentId_of (stage_failed ''p1'' ''e1'' ''Build'') = Some ''codepipeline:e1:Build'' \<and>
   stored_retries
     (one_incident ''codepipeline:e1:Build'' (Num 9007199254740992) ''RETRY_STAGE'' ''RETRYING'')
     ''codepipeline:e1:Build'' = Num 9007199254740992 \<and>
   MAX_RETRIES roomy_config = Num 10000000000000000 \<and>
   (9007199254740992 :: int) < 10000000000000000 \<and>
   (\<forall>c. \<not> rejects healthy_aws c) \<and>
   fst (handler roomy_config healthy_aws (stage_failed ''p1'' ''e1'' ''Build'')
          (one_incident ''codepipeline:e1:Build'' (Num 9007199254740992) ''RETRY_STAGE''
             ''RETRYING'')) = Inr () \<and>
   table
     (snd (handler roomy_config healthy_aws (stage_failed ''p1'' ''e1'' ''Build'')
             (one_incident ''codepipeline:e1:Build'' (Num 9007199254740992) ''RETRY_STAGE''
                ''RETRYING''))) ''codepipeline:e1:Build''
     = Some (incident_item healthy_aws ''codepipeline:e1:Build'' (Num 9007199254740992)
               ''RETRY_STAGE'' ''RETRYING'') \<and>
   stored_retries
     (snd (handler roomy_config healthy_aws (stage_failed ''p1'' ''e1'' ''Build'')
             (one_incident ''codepipeline:e1:Build'' (Num 9007199254740992) ''RETRY_STAGE''
                ''RETRYING''))) ''codepipeline:e1:Build''
     = Num 9007199254740992 \<and>
   Num 9007199254740992 \<noteq> Num (9007199254740992 + 1)"
proof -
  let ?ev = "stage_failed ''p1'' ''e1'' ''Build''"
  let ?k = "''codepipeline:e1:Build''"
  let ?w = "one_incident ?k (Num 9007199254740992) ''RETRY_STAGE'' ''RETRYING''"
  let ?it = "incident_item healthy_aws ?k (Num 9007199254740992) ''RETRY_STAGE'' ''RETRYING''"
  have h1: "incidentId_of ?ev = Some ?k" by (simp add: stage_failed_simps)
  have h2: "stored_retries ?w ?k = Num 9007199254740992" by (simp add: one_incident_simps)
  have h3: "MAX_RETRIES roomy_config = Num 10000000000000000"
    by (simp add: roomy_config_simps)
  have h4: "\<forall>c. \<not> rejects healthy_aws c" by (simp add: healthy_aws_simps)
  have lt: "\<not> js_ge (stored_retries ?w ?k) (MAX_RETRIES roomy_config)"
    by (simp add: h2 h3)
  have act: "chosen_action healthy_aws ?ev = ''RETRY_STAGE''"
    by (simp add: chosen_action_def stage_failed_simps)
  from below_budget_success [OF h1 lt h4] obtain sent
    where run: "handler roomy_config healthy_aws ?ev ?w =
      (Inr (), ?w\<lparr>trace := trace ?w @ sent @ [PutItem (TABLE roomy_config) ?it],
                  table := (table ?w)(?k \<mapsto> ?it)\<rparr>)"
    unfolding h2 js_add_limit act by blast
  have r1: "fst (handler roomy_config healthy_aws ?ev ?w) = Inr ()" by (simp add: run)
  have r2: "table (snd (handler roomy_config healthy_aws ?ev ?w)) ?k = Some ?it"
    by (simp add: run)
  have r3: "stored_retries (snd (handler roomy_config healthy_aws ?ev ?w)) ?k
              = Num 9007199254740992"
    by (simp add: stored_retries_def r2 retries_of_incident_item)
  have r4: "Num 9007199254740992 \<noteq> Num (9007199254740992 + 1)" by simp
  from h1 h2 h3 h4 r1 r2 r3 r4 show ?thesis by simp
qed

text \<open>
  C6. A pipeline action failure (state \<^verbatim>\<open>FAILED\<close>) below the retry budget is given the
  action \<^verbatim>\<open>RETRY_STAGE\<close> whatever else the event and the services carry. The one
  remediation request is \<^verbatim>\<open>retryStageExecution\<close> with the pipeline name, the execution id
  and the stage name of the event and the mode \<^verbatim>\<open>FAILED_ACTIONS\<close>, and a record the
  invocation writes has \<^verbatim>\<open>lastAction = RETRY_STAGE\<close>.
\<close>

theorem stage_failure_retries_stage:
  assumes st: "is_stage_failure ev" and nb: "\<not> is_build_failure ev"
    and k: "k = stage_incidentId (execution_id (or_no_detail (detail ev)))
                  (stage (or_no_detail (detail ev)))"
    and lt: "\<not> js_ge (stored_retries w k) (MAX_RETRIES cfg)"
    and rd: "\<not> rejects a (GetItem (TABLE cfg) k)"
  shows "chosen_action a ev = ''RETRY_STAGE'' \<and>
         filter is_remediation (issued cfg a ev w)
           = [RetryStageExecution (pipeline (or_no_detail (detail ev)))
                (execution_id (or_no_detail (detail ev)))
                (stage (or_no_detail (detail ev))) ''FAILED_ACTIONS''] \<and>
         (\<forall>T it. PutItem T it \<in> set (issued cfg a ev w)
                  \<longrightarrow> it ''lastAction'' = Some (S ''RETRY_STAGE''))"
proof -
  let ?d = "or_no_detail (detail ev)"
  let ?rs = "RetryStageExecution (pipeline ?d) (execution_id ?d) (stage ?d) ''FAILED_ACTIONS''"
  let ?it = "incident_item a k (js_add (stored_retries w k) (Num 1)) ''RETRY_STAGE'' ''RETRYING''"
  have run: "handler cfg a ev w =
      (if rejects a ?rs
       then (Inl (Rejected ?rs), w\<lparr>trace := trace w @ [GetItem (TABLE cfg) k, ?rs]\<rparr>)
       else saveIncident cfg a k (js_add (stored_retries w k) (Num 1)) ''RETRY_STAGE''
              ''RETRYING'' (w\<lparr>trace := trace w @ [GetItem (TABLE cfg) k, ?rs]\<rparr>))"
    using st nb lt rd
    by (simp add: handler_def codepipeline_failure_def Let_def io_bind_def request_eq
        getRetries_eq k [symmetric] stored_retries_def)
  have 1: "chosen_action a ev = ''RETRY_STAGE''"
    using nb by (simp add: chosen_action_def)
  have 2: "filter is_remediation (issued cfg a ev w) = [?rs]"
    by (simp add: issued_def run saveIncident_eq)
  have 3: "\<forall>T it. PutItem T it \<in> set (issued cfg a ev w)
                  \<longrightarrow> it ''lastAction'' = Some (S ''RETRY_STAGE'')"
    by (auto simp: issued_def run saveIncident_eq incident_item_fields)
  from 1 2 3 show ?thesis by blast
qed

theorem stage_failure_retries_stage_witness:
  "is_stage_failure (stage_failed ''p1'' ''e1'' ''Build'') \<and>
   \<not> is_build_failure (stage_failed ''p1'' ''e1'' ''Build'') \<and>
   \<not> js_ge (stored_retries fresh_world ''codepipeline:e1:Build'') (MAX_RETRIES demo_config) \<and>
   \<not> rejects healthy_aws (GetItem (TABLE demo_config) ''codepipeline:e1:Build'') \<and>
   filter is_remediation
     (issued demo_config healthy_aws (stage_failed ''p1'' ''e1'' ''Build'') fresh_world)
     = [RetryStageExecution (Some ''p1'') (Some ''e1'') (Some ''Build'') ''FAILED_ACTIONS''] \<and>
   PutItem (TABLE demo_config)
     (incident_item healthy_aws ''codepipeline:e1:Build'' (Num 1) ''RETRY_STAGE'' ''RETRYING'')
     \<in> set (issued demo_config healthy_aws (stage_failed ''p1'' ''e1'' ''Build'') fresh_world) \<and>
   incident_item healthy_aws ''codepipeline:e1:Build'' (Num 1) ''RETRY_STAGE'' ''RETRYING''
     ''lastAction'' = Some (S ''RETRY_STAGE'')"
proof -
  let ?ev = "stage_failed ''p1'' ''e1'' ''Build''"
  let ?it = "incident_item healthy_aws ''codepipeline:e1:Build'' (Num 1) ''RETRY_STAGE''
               ''RETRYING''"
  have d: "or_no_detail (detail ?ev)
             = \<lparr>build_id = None, build_status = None, state = Some ''FAILED'',
                pipeline = Some ''p1'', stage = Some ''Build'', execution_id = Some ''e1''\<rparr>"
    by (simp add: stage_failed_def or_no_detail_def)
  have h1: "is_stage_failure ?ev" and h2: "\<not> is_build_failure ?ev"
    by (simp_all add: stage_failed_simps)
  have h3: "''codepipeline:e1:Build''
              = stage_incidentId (execution_id (or_no_detail (detail ?ev)))
                  (stage (or_no_detail (detail ?ev)))"
    by (simp add: d stage_incidentId_def tmpl_def)
  have h4: "\<not> js_ge (stored_retries fresh_world ''codepipeline:e1:Build'')
                  (MAX_RETRIES demo_config)"
    by (simp add: fresh_world_simps demo_config_simps)
  have h5: "\<not> rejects healthy_aws (GetItem (TABLE demo_config) ''codepipeline:e1:Build'')"
    by (simp add: healthy_aws_simps)
  have h6: "PutItem (TABLE demo_config) ?it
              \<in> set (issued demo_config healthy_aws ?ev fresh_world)"
    by (simp add: issued_def handler_def stage_failed_simps codepipeline_failure_def d Let_def
        io_bind_def request_eq getRetries_eq saveIncident_eq healthy_aws_simps demo_config_simps
        fresh_world_simps stage_incidentId_def tmpl_def retries_of_def round_double_1)
  note inst = stage_failure_retries_stage [OF h1 h2 h3 h4 h5]
  from inst have r1: "filter is_remediation (issued demo_config healthy_aws ?ev fresh_world)
     = [RetryStageExecution (Some ''p1'') (Some ''e1'') (Some ''Build'') ''FAILED_ACTIONS'']"
    by (simp add: d)
  from inst h6 have r2: "?it ''lastAction'' = Some (S ''RETRY_STAGE'')"
    by blast
  from h1 h2 h4 h5 h6 r1 r2 show ?thesis by blast
qed

text \<open>
  C10. With no topic configured (\<^verbatim>\<open>TOPIC_ARN\<close> unset or empty) \<^verbatim>\<open>notify\<close> returns normally
  and sends nothing. An event past the retry budget then publishes nothing, and still ends
  normally with the record \<^verbatim>\<open>status = UNHEALED\<close>, \<^verbatim>\<open>lastAction = GAVE_UP\<close> stored, as long as
  the reads and the write are accepted.
\<close>

theorem unconfigured_topic_drops_escalation:
  assumes t: "TOPIC_ARN cfg = None \<or> TOPIC_ARN cfg = Some []"
  shows "notify cfg a msg w = (Inr (), w) \<and>
         (incidentId_of ev = Some k \<and> js_ge (stored_retries w k) (MAX_RETRIES cfg) \<and>
          (\<forall>c. \<not> is_publish c \<longrightarrow> \<not> rejects a c) \<longrightarrow>
            fst (handler cfg a ev w) = Inr () \<and>
            (\<forall>c \<in> set (issued cfg a ev w). \<not> is_publish c) \<and>
            (\<exists>it. table (snd (handler cfg a ev w)) = (table w)(k \<mapsto> it) \<and>
                  it ''status'' = Some (S ''UNHEALED'') \<and>
                  it ''lastAction'' = Some (S ''GAVE_UP'') \<and>
                  it ''retries'' = Some (N (String_num (stored_retries w k)))))"
proof -
  from t have nt: "\<And>m v. notify cfg a m v = (Inr (), v)"
    by (auto simp: notify_def io_return_def)
  have "fst (handler cfg a ev w) = Inr () \<and>
            (\<forall>c \<in> set (issued cfg a ev w). \<not> is_publish c) \<and>
            (\<exists>it. table (snd (handler cfg a ev w)) = (table w)(k \<mapsto> it) \<and>
                  it ''status'' = Some (S ''UNHEALED'') \<and>
                  it ''lastAction'' = Some (S ''GAVE_UP'') \<and>
                  it ''retries'' = Some (N (String_num (stored_retries w k))))"
    if k: "incidentId_of ev = Some k" and ge: "js_ge (stored_retries w k) (MAX_RETRIES cfg)"
      and ok: "\<forall>c. \<not> is_publish c \<longrightarrow> \<not> rejects a c"
  proof -
    from exhausted_run [OF k ge, of a] obtain reads
      where r: "\<forall>c \<in> set reads. \<not> is_remediation c \<and> \<not> is_write c \<and> \<not> is_publish c"
        and h: "handler cfg a ev w =
             (if \<exists>c \<in> set reads. rejects a c
              then (Inl (Rejected (last reads)), w\<lparr>trace := trace w @ reads\<rparr>)
              else io_bind (notify cfg a (escalation_message a ev (stored_retries w k)))
                     (\<lambda>_. saveIncident cfg a k (stored_retries w k) ''GAVE_UP'' ''UNHEALED'')
                     (w\<lparr>trace := trace w @ reads\<rparr>))"
      by blast
    let ?it = "incident_item a k (stored_retries w k) ''GAVE_UP'' ''UNHEALED''"
    from r ok have "\<not> (\<exists>c \<in> set reads. rejects a c)" by blast
    with ok have run: "handler cfg a ev w =
        (Inr (), w\<lparr>trace := trace w @ reads @ [PutItem (TABLE cfg) ?it],
                   table := (table w)(k \<mapsto> ?it)\<rparr>)"
      by (simp add: h io_bind_def nt saveIncident_eq)
    have "issued cfg a ev w = reads @ [PutItem (TABLE cfg) ?it]"
      by (simp add: issued_def run)
    with r have "\<forall>c \<in> set (issued cfg a ev w). \<not> is_publish c" by simp
    moreover have "table (snd (handler cfg a ev w)) = (table w)(k \<mapsto> ?it)" by (simp add: run)
    moreover have "fst (handler cfg a ev w) = Inr ()" by (simp add: run)
    ultimately show ?thesis
      using incident_item_fields [of a k "stored_retries w k" "''GAVE_UP''" "''UNHEALED''"]
      by blast
  qed
  with nt show ?thesis by blast
qed

theorem unconfigured_topic_drops_escalation_witness:
  "(TOPIC_ARN silent_config = None \<or> TOPIC_ARN silent_config = Some []) \<and>
   incidentId_of (build_failed ''b1'') = Some ''codebuild:b1'' \<and>
   js_ge (stored_retries (one_incident ''codebuild:b1'' (Num 2) ''RETRY'' ''RETRYING'')
            ''codebuild:b1'') (MAX_RETRIES silent_config) \<and>
   (\<forall>c. \<not> rejects healthy_aws c) \<and>
   notify silent_config healthy_aws ''gone''
       (one_incident ''codebuild:b1'' (Num 2) ''RETRY'' ''RETRYING'')
     = (Inr (), one_incident ''codebuild:b1'' (Num 2) ''RETRY'' ''RETRYING'') \<and>
   fst (handler silent_config healthy_aws (build_failed ''b1'')
          (one_incident ''codebuild:b1'' (Num 2) ''RETRY'' ''RETRYING'')) = Inr () \<and>
   filter is_publish
     (issued silent_config healthy_aws (build_failed ''b1'')
        (one_incident ''codebuild:b1'' (Num 2) ''RETRY'' ''RETRYING'')) = []"
proof -
  let ?w = "one_incident ''codebuild:b1'' (Num 2) ''RETRY'' ''RETRYING''"
  have h0: "TOPIC_ARN silent_config = None \<or> TOPIC_ARN silent_config = Some []"
    by (simp add: silent_config_simps)
  have h1: "incidentId_of (build_failed ''b1'') = Some ''codebuild:b1''"
    by (simp add: build_failed_simps)
  have h2: "js_ge (stored_retries ?w ''codebuild:b1'') (MAX_RETRIES silent_config)"
    by (simp add: one_incident_simps silent_config_simps)
  have h3: "\<forall>c. \<not> is_publish c \<longrightarrow> \<not> rejects healthy_aws c"
    by (simp add: healthy_aws_simps)
  from unconfigured_topic_drops_escalation [OF h0, of healthy_aws "''gone''" ?w
      "build_failed ''b1''" "''codebuild:b1''"] h1 h2 h3
  have "notify silent_config healthy_aws ''gone'' ?w = (Inr (), ?w)"
    and "fst (handler silent_config healthy_aws (build_failed ''b1'') ?w) = Inr ()"
    and "\<forall>c \<in> set (issued silent_config healthy_aws (build_failed ''b1'') ?w). \<not> is_publish c"
    by blast+
  with h0 h1 h2 show ?thesis
    by (simp add: healthy_aws_simps filter_empty_conv)
qed






text \<open>
  C8. The identity is a function of the event. For a build event it is
  determined by the build id and determines it. For a stage event it is determined by the
  execution id and the stage name alone: the pipeline name does not enter it. It
  determines the execution id and the stage name when the execution ids, or the stage
  names, contain no colon. A build identity is never a stage identity.
\<close>

theorem identity_of_failure_locus:
  "(build_incidentId b1 = build_incidentId b2 \<longleftrightarrow> tmpl b1 = tmpl b2) \<and>
   (build_incidentId (Some x1) = build_incidentId (Some x2) \<longleftrightarrow> x1 = x2) \<and>
   ((CHR '':'' \<notin> set (tmpl e1) \<and> CHR '':'' \<notin> set (tmpl e2)) \<or>
    (CHR '':'' \<notin> set (tmpl s1) \<and> CHR '':'' \<notin> set (tmpl s2)) \<longrightarrow>
      (stage_incidentId e1 s1 = stage_incidentId e2 s2 \<longleftrightarrow>
         tmpl e1 = tmpl e2 \<and> tmpl s1 = tmpl s2)) \<and>
   build_incidentId b1 \<noteq> stage_incidentId e1 s1 \<and>
   incidentId_of (ev\<lparr>detail := Some (d\<lparr>pipeline := p\<rparr>)\<rparr>) = incidentId_of (ev\<lparr>detail := Some d\<rparr>)"
proof -
  have 1: "build_incidentId b1 = build_incidentId b2 \<longleftrightarrow> tmpl b1 = tmpl b2"
    by (simp add: build_incidentId_def)
  have 2: "build_incidentId (Some x1) = build_incidentId (Some x2) \<longleftrightarrow> x1 = x2"
    by (simp add: build_incidentId_def tmpl_def)
  have 3: "(CHR '':'' \<notin> set (tmpl e1) \<and> CHR '':'' \<notin> set (tmpl e2)) \<or>
    (CHR '':'' \<notin> set (tmpl s1) \<and> CHR '':'' \<notin> set (tmpl s2)) \<longrightarrow>
      (stage_incidentId e1 s1 = stage_incidentId e2 s2 \<longleftrightarrow>
         tmpl e1 = tmpl e2 \<and> tmpl s1 = tmpl s2)"
    using stage_incidentId_inj [of e1 e2 s1 s2]
    by (auto simp: stage_incidentId_def)
  have 4: "build_incidentId b1 \<noteq> stage_incidentId e1 s1"
    by (simp add: build_incidentId_def stage_incidentId_def)
  have 5: "incidentId_of (ev\<lparr>detail := Some (d\<lparr>pipeline := p\<rparr>)\<rparr>)
             = incidentId_of (ev\<lparr>detail := Some d\<rparr>)"
    by (auto simp: incidentId_of_def is_build_failure_def is_stage_failure_def or_no_detail_def)
  from 1 2 3 4 5 show ?thesis by blast
qed

theorem identity_of_failure_locus_witness:
  "(CHR '':'' \<notin> set (tmpl (Some ''e1'')) \<and> CHR '':'' \<notin> set (tmpl (Some ''e2''))) \<and>
   stage_incidentId (Some ''e1'') (Some ''Build'') \<noteq> stage_incidentId (Some ''e2'') (Some ''Build'')"
proof -
  have h: "CHR '':'' \<notin> set (tmpl (Some ''e1'')) \<and> CHR '':'' \<notin> set (tmpl (Some ''e2''))"
    by (simp add: tmpl_def)
  have n: "tmpl (Some ''e1'') \<noteq> tmpl (Some ''e2'')" by (simp add: tmpl_def)
  from identity_of_failure_locus [of None None "''x''" "''x''" "Some ''e1''" "Some ''e2''"
      "Some ''Build''" "Some ''Build''"] h n
  show ?thesis by blast
qed

text \<open>
  C8, worded for the tuple of pipeline, execution and stage, does not hold: two stage
  failures that differ only in the pipeline name are filed under the same identity.
\<close>

theorem identity_ignores_pipeline_counterexample:
  "incidentId_of (stage_failed ''p1'' ''e1'' ''Build'') = Some ''codepipeline:e1:Build'' \<and>
   is_stage_failure (stage_failed ''p1'' ''e1'' ''Build'') \<and>
   is_stage_failure (stage_failed ''p2'' ''e1'' ''Build'') \<and>
   pipeline (or_no_detail (detail (stage_failed ''p1'' ''e1'' ''Build'')))
     \<noteq> pipeline (or_no_detail (detail (stage_failed ''p2'' ''e1'' ''Build''))) \<and>
   incidentId_of (stage_failed ''p1'' ''e1'' ''Build'')
     = incidentId_of (stage_failed ''p2'' ''e1'' ''Build'')"
  by (simp add: stage_failed_simps) (simp add: stage_failed_def or_no_detail_def)


end
